theory Spec2Isabelle
  imports Complex_Main
begin

section \<open>JSON values as the server sees them\<close>

text \<open>
  The server of \<^verbatim>\<open>src/server.js\<close> handles only values that came out of
  \<^verbatim>\<open>JSON.parse\<close> (the request body, through \<^verbatim>\<open>express.json()\<close>, and the content
  of \<^verbatim>\<open>db.json\<close>) and values it builds from them. An object is an association list
  in insertion order; \<^verbatim>\<open>undefined\<close> is the \<open>None\<close> of an \<open>option\<close>. A number
  stands for the value of a double: the code only asks whether it is zero and whether
  it is a number. Strings are byte sequences (UTF-8, as in the data file). The body of
  a request is an object, as \<^verbatim>\<open>express.json()\<close> hands it over for a JSON object.
\<close>

datatype json =
    JNull
  | JBool bool
  | JNum rat
  | JStr string
  | JArr "json list"
  | JObj "(string \<times> json) list"

type_synonym obj = "(string \<times> json) list"

datatype error = TypeError | SyntaxError | IOError

text \<open>An object of JavaScript has each key once.\<close>

fun wf_json :: "json \<Rightarrow> bool" where
  "wf_json (JArr xs) = list_all wf_json xs"
| "wf_json (JObj kvs) = (distinct (map fst kvs) \<and> list_all wf_json (map snd kvs))"
| "wf_json _ = True"

definition wf_obj :: "obj \<Rightarrow> bool" where
  "wf_obj kvs = wf_json (JObj kvs)"

text \<open>
  \<^verbatim>\<open>o[k] = v\<close> on an object: an existing key keeps its place, a new key goes last.
  (JavaScript lists the keys that are array indices before the others; no route reads
  the order of the keys, and the model keeps the order of insertion for all of them.)
\<close>

fun assign :: "string \<Rightarrow> json \<Rightarrow> obj \<Rightarrow> obj" where
  "assign k v [] = [(k, v)]"
| "assign k v ((k', v') # kvs) =
     (if k' = k then (k, v) # kvs else (k', v') # assign k v kvs)"

text \<open>
  \<^verbatim>\<open>x.k\<close> for the keys the server reads (\<^verbatim>\<open>properties\<close>, \<^verbatim>\<open>id\<close>): a TypeError
  on \<^verbatim>\<open>null\<close>, the stored value on an object, \<^verbatim>\<open>undefined\<close> on anything else (no
  array, string, number or boolean has a member of these names).
\<close>

fun member :: "json \<Rightarrow> string \<Rightarrow> error + json option" where
  "member JNull k = Inl TypeError"
| "member (JObj kvs) k = Inr (map_of kvs k)"
| "member _ k = Inr None"

text \<open>Truthiness of a value that may be \<^verbatim>\<open>undefined\<close>.\<close>

fun truthy :: "json option \<Rightarrow> bool" where
  "truthy None = False"
| "truthy (Some JNull) = False"
| "truthy (Some (JBool b)) = b"
| "truthy (Some (JNum n)) = (n \<noteq> 0)"
| "truthy (Some (JStr s)) = (s \<noteq> [])"
| "truthy (Some (JArr xs)) = True"
| "truthy (Some (JObj kvs)) = True"

text \<open>\<^verbatim>\<open>typeof v === "number"\<close>.\<close>

fun is_number :: "json option \<Rightarrow> bool" where
  "is_number (Some (JNum n)) = True"
| "is_number _ = False"

text \<open>
  The own enumerable properties that \<^verbatim>\<open>{...x}\<close> copies: those of an object; a number,
  a boolean and \<^verbatim>\<open>null\<close> have none. The indices of an array or a string are not
  modelled: the server spreads only the candidate and the element that
  \<^verbatim>\<open>findIndex\<close> selected, and that element is an object (lemmas \<open>findIndex_hit\<close>
  and \<open>id_is_True\<close>).
\<close>

fun own_props :: "json \<Rightarrow> obj" where
  "own_props (JObj kvs) = kvs"
| "own_props _ = []"

definition spread_into :: "obj \<Rightarrow> obj \<Rightarrow> obj" where
  "spread_into acc kvs = foldl (\<lambda>acc kv. assign (fst kv) (snd kv) acc) acc kvs"

section \<open>Date.now().toString()\<close>

definition digit :: "nat \<Rightarrow> char" where
  "digit d = ''0123456789'' ! d"

fun toString :: "nat \<Rightarrow> string" where
  "toString n = (if n < 10 then [digit n] else toString (n div 10) @ [digit (n mod 10)])"

declare toString.simps [simp del]

text \<open>Reading a decimal text back, to tell the texts of two timestamps apart.\<close>

definition digit_val :: "char \<Rightarrow> nat" where
  "digit_val c = of_char c - 48"

definition fromString :: "string \<Rightarrow> nat" where
  "fromString s = foldl (\<lambda>a c. 10 * a + digit_val c) 0 s"

section \<open>The store: initializeDb, readData, writeData\<close>

text \<open>
  The state is the data file: absent (\<^verbatim>\<open>ENOENT\<close>), out of reach for another
  reason of the operating system, or a text. \<^verbatim>\<open>JSON.parse\<close> and
  \<^verbatim>\<open>JSON.stringify(_, null, 2)\<close> belong to the runtime, not to the repository: they
  are parameters.
\<close>

datatype disk = Enoent | Eio | File string

record runtime =
  JSON_parse :: "string \<Rightarrow> json option"
  JSON_stringify :: "json \<Rightarrow> string"

definition empty_document :: json where
  "empty_document = JObj [(''properties'', JArr [])]"

fun initializeDb :: "runtime \<Rightarrow> disk \<Rightarrow> error + disk" where
  "initializeDb rt Enoent = Inr (File (JSON_stringify rt empty_document))"
| "initializeDb rt Eio = Inl IOError"
| "initializeDb rt (File c) = Inr (File c)"

fun readData :: "runtime \<Rightarrow> disk \<Rightarrow> (error + json) \<times> disk" where
  "readData rt d =
     (case initializeDb rt d of
        Inl e \<Rightarrow> (Inl e, d)
      | Inr d' \<Rightarrow>
          (case d' of
             File c \<Rightarrow>
               (case JSON_parse rt c of
                  None \<Rightarrow> (Inl SyntaxError, d')
                | Some v \<Rightarrow> (Inr v, d'))
           | _ \<Rightarrow> (Inl IOError, d')))"

fun writeData :: "runtime \<Rightarrow> json \<Rightarrow> disk \<Rightarrow> (error + unit) \<times> disk" where
  "writeData rt v d =
     (case initializeDb rt d of
        Inl e \<Rightarrow> (Inl e, d)
      | Inr d' \<Rightarrow> (Inr (), File (JSON_stringify rt v)))"

section \<open>validateProperty\<close>

definition requiredFields :: "string list" where
  "requiredFields =
     [''title'', ''address'', ''bedrooms'', ''bathrooms'', ''suites'', ''built_area'',
      ''total_area'', ''price'', ''condition'', ''description'', ''cover_image_url'',
      ''photos_google_drive_link'']"

text \<open>The messages, in UTF-8: the accented letters are two bytes each.\<close>

definition required_msg :: "string \<Rightarrow> string" where
  "required_msg field =
     ''O campo '' @ [CHR 0x27] @ field @ [CHR 0x27] @ '' '' @ [CHR 0xC3, CHR 0xA9]
       @ '' obrigat'' @ [CHR 0xC3, CHR 0xB3] @ ''rio.''"

definition numbers_msg :: string where
  "numbers_msg =
     ''Campos de quartos, banheiros, su'' @ [CHR 0xC3, CHR 0xAD] @ ''tes e ''
       @ [CHR 0xC3, CHR 0xA1] @ ''reas devem ser n'' @ [CHR 0xC3, CHR 0xBA] @ ''meros.''"

text \<open>\<^verbatim>\<open>!property[field] && property[field] !== 0\<close>\<close>

definition absent :: "obj \<Rightarrow> string \<Rightarrow> bool" where
  "absent property field =
     (\<not> truthy (map_of property field) \<and> map_of property field \<noteq> Some (JNum 0))"

text \<open>The loop over the required fields, leaving at the first field that fails.\<close>

fun first_absent :: "obj \<Rightarrow> string list \<Rightarrow> string option" where
  "first_absent property [] = None"
| "first_absent property (field # others) =
     (if absent property field then Some field else first_absent property others)"

definition validateProperty :: "obj \<Rightarrow> string option" where
  "validateProperty property =
     (case first_absent property requiredFields of
        Some field \<Rightarrow> Some (required_msg field)
      | None \<Rightarrow>
          if \<not> is_number (map_of property ''bedrooms'')
             \<or> \<not> is_number (map_of property ''bathrooms'')
             \<or> \<not> is_number (map_of property ''suites'')
             \<or> \<not> is_number (map_of property ''built_area'')
             \<or> \<not> is_number (map_of property ''total_area'')
          then Some numbers_msg
          else None)"

section \<open>The routes\<close>

datatype response = Response (status: nat) (payload: json)

definition message :: "string \<Rightarrow> json" where
  "message m = JObj [(''message'', JStr m)]"

definition o_acute :: string where
  "o_acute = [CHR 0xC3, CHR 0xB3]"

definition get_error_msg :: string where
  "get_error_msg = ''Erro ao ler os dados dos im'' @ o_acute @ ''veis.''"

definition post_error_msg :: string where
  "post_error_msg = ''Erro ao adicionar o im'' @ o_acute @ ''vel.''"

definition put_error_msg :: string where
  "put_error_msg = ''Erro ao atualizar o im'' @ o_acute @ ''vel.''"

definition delete_error_msg :: string where
  "delete_error_msg = ''Erro ao apagar o im'' @ o_acute @ ''vel.''"

definition not_found_msg :: string where
  "not_found_msg =
     ''Im'' @ o_acute @ ''vel n'' @ [CHR 0xC3, CHR 0xA3] @ ''o encontrado.''"

definition delete_not_found_msg :: string where
  "delete_not_found_msg =
     ''Im'' @ o_acute @ ''vel n'' @ [CHR 0xC3, CHR 0xA3] @ ''o encontrado para apagar.''"

definition deleted_msg :: string where
  "deleted_msg = ''Im'' @ o_acute @ ''vel apagado com sucesso.''"

subsection \<open>GET /api/imoveis\<close>

definition get_imoveis :: "runtime \<Rightarrow> disk \<Rightarrow> response \<times> disk" where
  "get_imoveis rt d =
     (case readData rt d of
        (Inl e, d1) \<Rightarrow> (Response 500 (message get_error_msg), d1)
      | (Inr data, d1) \<Rightarrow>
          (case member data ''properties'' of
             Inl e \<Rightarrow> (Response 500 (message get_error_msg), d1)
           | Inr None \<Rightarrow> (Response 200 (JArr []), d1)
           | Inr (Some v) \<Rightarrow> (Response 200 (if truthy (Some v) then v else JArr []), d1)))"

subsection \<open>POST /api/imoveis\<close>

text \<open>
  Lines 82 to 85: \<^verbatim>\<open>if (!data.properties) data.properties = []\<close>, then the push.
  On an object the key is set where it is missing or falsy, and a value that is not an
  array has no \<^verbatim>\<open>push\<close>. On an array the new member is not an element, so
  \<^verbatim>\<open>JSON.stringify\<close> writes the array as it was. On a number, a string or a boolean
  the assignment is dropped and the push fails; on \<^verbatim>\<open>null\<close> the read fails.
\<close>

fun push_property :: "json \<Rightarrow> json \<Rightarrow> error + json" where
  "push_property (JObj kvs) p =
     (let kvs1 = (if \<not> truthy (map_of kvs ''properties'')
                  then assign ''properties'' (JArr []) kvs else kvs)
      in case map_of kvs1 ''properties'' of
           Some (JArr xs) \<Rightarrow> Inr (JObj (assign ''properties'' (JArr (xs @ [p])) kvs1))
         | _ \<Rightarrow> Inl TypeError)"
| "push_property (JArr xs) p = Inr (JArr xs)"
| "push_property _ p = Inl TypeError"

definition post_imoveis :: "runtime \<Rightarrow> nat \<Rightarrow> obj \<Rightarrow> disk \<Rightarrow> response \<times> disk" where
  "post_imoveis rt now body d =
     (case validateProperty body of
        Some validationError \<Rightarrow> (Response 400 (message validationError), d)
      | None \<Rightarrow>
          (case readData rt d of
             (Inl e, d1) \<Rightarrow> (Response 500 (message post_error_msg), d1)
           | (Inr data, d1) \<Rightarrow>
               (let newProperty = assign ''id'' (JStr (toString now)) body
                in case push_property data (JObj newProperty) of
                     Inl e \<Rightarrow> (Response 500 (message post_error_msg), d1)
                   | Inr data' \<Rightarrow>
                       (case writeData rt data' d1 of
                          (Inl e, d2) \<Rightarrow> (Response 500 (message post_error_msg), d2)
                        | (Inr u, d2) \<Rightarrow> (Response 201 (JObj newProperty), d2)))))"

subsection \<open>PUT /api/imoveis/:id\<close>

text \<open>The callback \<^verbatim>\<open>p => p.id === propertyId\<close>; it fails on a \<^verbatim>\<open>null\<close> element.\<close>

definition id_is :: "string \<Rightarrow> json \<Rightarrow> error + bool" where
  "id_is propertyId p =
     (case member p ''id'' of
        Inl e \<Rightarrow> Inl e
      | Inr v \<Rightarrow> Inr (v = Some (JStr propertyId)))"

text \<open>\<^verbatim>\<open>findIndex(p => p.id === propertyId)\<close>: \<open>None\<close> is the \<open>-1\<close>.\<close>

fun findIndex :: "string \<Rightarrow> json list \<Rightarrow> error + nat option" where
  "findIndex propertyId [] = Inr None"
| "findIndex propertyId (p # ps) =
     (case id_is propertyId p of
        Inl e \<Rightarrow> Inl e
      | Inr True \<Rightarrow> Inr (Some 0)
      | Inr False \<Rightarrow>
          (case findIndex propertyId ps of
             Inl e \<Rightarrow> Inl e
           | Inr None \<Rightarrow> Inr None
           | Inr (Some i) \<Rightarrow> Inr (Some (Suc i))))"

text \<open>\<^verbatim>\<open>{ ...old, ...updatedPropertyData, id: propertyId }\<close>\<close>

definition merge_property :: "json \<Rightarrow> obj \<Rightarrow> string \<Rightarrow> obj" where
  "merge_property old updatedPropertyData propertyId =
     assign ''id'' (JStr propertyId)
       (spread_into (spread_into [] (own_props old)) updatedPropertyData)"

definition put_imoveis :: "runtime \<Rightarrow> string \<Rightarrow> obj \<Rightarrow> disk \<Rightarrow> response \<times> disk" where
  "put_imoveis rt propertyId body d =
     (case validateProperty body of
        Some validationError \<Rightarrow> (Response 400 (message validationError), d)
      | None \<Rightarrow>
          (case readData rt d of
             (Inl e, d1) \<Rightarrow> (Response 500 (message put_error_msg), d1)
           | (Inr data, d1) \<Rightarrow>
               (case data of
                  JObj kvs \<Rightarrow>
                    (case map_of kvs ''properties'' of
                       Some (JArr xs) \<Rightarrow>
                         (case findIndex propertyId xs of
                            Inl e \<Rightarrow> (Response 500 (message put_error_msg), d1)
                          | Inr None \<Rightarrow> (Response 404 (message not_found_msg), d1)
                          | Inr (Some propertyIndex) \<Rightarrow>
                              (let merged = merge_property (xs ! propertyIndex) body propertyId;
                                   data' = JObj (assign ''properties''
                                             (JArr (xs[propertyIndex := JObj merged])) kvs)
                               in case writeData rt data' d1 of
                                    (Inl e, d2) \<Rightarrow> (Response 500 (message put_error_msg), d2)
                                  | (Inr u, d2) \<Rightarrow> (Response 200 (JObj merged), d2)))
                     | _ \<Rightarrow> (Response 500 (message put_error_msg), d1))
                | _ \<Rightarrow> (Response 500 (message put_error_msg), d1))))"

subsection \<open>DELETE /api/imoveis/:id\<close>

text \<open>\<^verbatim>\<open>filter(p => p.id !== propertyId)\<close>, which fails on a \<^verbatim>\<open>null\<close> element.\<close>

fun filter_other :: "string \<Rightarrow> json list \<Rightarrow> error + json list" where
  "filter_other propertyId [] = Inr []"
| "filter_other propertyId (p # ps) =
     (case id_is propertyId p of
        Inl e \<Rightarrow> Inl e
      | Inr same \<Rightarrow>
          (case filter_other propertyId ps of
             Inl e \<Rightarrow> Inl e
           | Inr ys \<Rightarrow> Inr (if \<not> same then p # ys else ys)))"

definition delete_imoveis :: "runtime \<Rightarrow> string \<Rightarrow> disk \<Rightarrow> response \<times> disk" where
  "delete_imoveis rt propertyId d =
     (case readData rt d of
        (Inl e, d1) \<Rightarrow> (Response 500 (message delete_error_msg), d1)
      | (Inr data, d1) \<Rightarrow>
          (case data of
             JObj kvs \<Rightarrow>
               (case map_of kvs ''properties'' of
                  Some (JArr xs) \<Rightarrow>
                    (case filter_other propertyId xs of
                       Inl e \<Rightarrow> (Response 500 (message delete_error_msg), d1)
                     | Inr ys \<Rightarrow>
                         if length ys = length xs
                         then (Response 404 (message delete_not_found_msg), d1)
                         else (case writeData rt (JObj (assign ''properties'' (JArr ys) kvs)) d1 of
                                 (Inl e, d2) \<Rightarrow> (Response 500 (message delete_error_msg), d2)
                               | (Inr u, d2) \<Rightarrow> (Response 200 (message deleted_msg), d2)))
                | _ \<Rightarrow> (Response 500 (message delete_error_msg), d1))
           | _ \<Rightarrow> (Response 500 (message delete_error_msg), d1)))"

section \<open>Sequences of requests\<close>

text \<open>A request to one of the four routes; a POST carries the value of \<^verbatim>\<open>Date.now()\<close>.\<close>

datatype request = GET | POST nat obj | PUT string obj | DELETE string

fun handle :: "runtime \<Rightarrow> request \<Rightarrow> disk \<Rightarrow> response \<times> disk" where
  "handle rt GET d = get_imoveis rt d"
| "handle rt (POST now body) d = post_imoveis rt now body d"
| "handle rt (PUT propertyId body) d = put_imoveis rt propertyId body d"
| "handle rt (DELETE propertyId) d = delete_imoveis rt propertyId d"

fun run :: "runtime \<Rightarrow> request list \<Rightarrow> disk \<Rightarrow> disk" where
  "run rt [] d = d"
| "run rt (r # rs) d = run rt rs (snd (handle rt r d))"

fun stamps :: "request list \<Rightarrow> nat list" where
  "stamps [] = []"
| "stamps (POST now body # rs) = now # stamps rs"
| "stamps (r # rs) = stamps rs"

fun wf_request :: "request \<Rightarrow> bool" where
  "wf_request (POST now body) = wf_obj body"
| "wf_request (PUT propertyId body) = wf_obj body"
| "wf_request r = True"

text \<open>The Collection is what the list route answers; the ids are the \<^verbatim>\<open>id\<close> members.\<close>

definition collection :: "runtime \<Rightarrow> disk \<Rightarrow> json list" where
  "collection rt d =
     (case fst (get_imoveis rt d) of
        Response code (JArr xs) \<Rightarrow> if code = 200 then xs else []
      | _ \<Rightarrow> [])"

definition ids :: "json list \<Rightarrow> (error + json option) list" where
  "ids xs = map (\<lambda>p. member p ''id'') xs"

section \<open>The runtime's JSON functions\<close>

text \<open>
  What the runtime gives: a value with each key once, serialised and parsed again, is
  the same value.
\<close>

definition codec_ok :: "runtime \<Rightarrow> bool" where
  "codec_ok rt = (\<forall>v. wf_json v \<longrightarrow> JSON_parse rt (JSON_stringify rt v) = Some v)"

text \<open>The data file as the server writes it when the Collection is \<open>xs\<close>.\<close>

definition stored :: "runtime \<Rightarrow> json list \<Rightarrow> disk" where
  "stored rt xs = File (JSON_stringify rt (JObj [(''properties'', JArr xs)]))"

text \<open>
  The data file holds the Collection \<open>xs\<close>: it is that file, or there is no file yet
  and \<open>xs\<close> is empty.
\<close>

definition holds :: "runtime \<Rightarrow> disk \<Rightarrow> json list \<Rightarrow> bool" where
  "holds rt d xs = (d = stored rt xs \<or> (d = Enoent \<and> xs = []))"

text \<open>
  What every Collection built by the routes satisfies: the records are objects with each
  key once, the id of each is the decimal text of one of the timestamps \<open>ts\<close>, and
  the ids differ when the timestamps do.
\<close>

definition stamped :: "nat list \<Rightarrow> json \<Rightarrow> bool" where
  "stamped ts p =
     (case p of
        JObj kvs \<Rightarrow>
          (case map_of kvs ''id'' of
             Some (JStr s) \<Rightarrow> s \<in> set (map toString ts)
           | _ \<Rightarrow> False)
      | _ \<Rightarrow> False)"

definition built :: "runtime \<Rightarrow> nat list \<Rightarrow> disk \<Rightarrow> bool" where
  "built rt ts d =
     (\<exists>xs. holds rt d xs \<and> wf_json (JArr xs) \<and> list_all (stamped ts) xs
           \<and> (distinct ts \<longrightarrow> distinct (ids xs)))"

text \<open>
  A runtime to compute with: every value is written behind a one-letter tag, with counts
  and lengths in unary, and read back by a parser that takes the length of the text as
  fuel.
\<close>

definition enc_nat :: "nat \<Rightarrow> string" where
  "enc_nat n = replicate n CHR ''1'' @ ''0''"

fun dec_nat :: "string \<Rightarrow> (nat \<times> string) option" where
  "dec_nat [] = None"
| "dec_nat (c # cs) =
     (if c = CHR ''0'' then Some (0, cs)
      else if c = CHR ''1'' then
        (case dec_nat cs of None \<Rightarrow> None | Some (n, r) \<Rightarrow> Some (Suc n, r))
      else None)"

definition enc_str :: "string \<Rightarrow> string" where
  "enc_str s = enc_nat (length s) @ s"

definition dec_str :: "string \<Rightarrow> (string \<times> string) option" where
  "dec_str s =
     (case dec_nat s of
        None \<Rightarrow> None
      | Some (n, r) \<Rightarrow> if n \<le> length r then Some (take n r, drop n r) else None)"

definition enc_rat :: "rat \<Rightarrow> string" where
  "enc_rat q =
     (case quotient_of q of
        (a, b) \<Rightarrow> (if a < 0 then ''-'' else ''+'') @ enc_nat (nat \<bar>a\<bar>) @ enc_nat (nat b))"

definition dec_rat :: "string \<Rightarrow> (rat \<times> string) option" where
  "dec_rat s =
     (case s of
        [] \<Rightarrow> None
      | c # cs \<Rightarrow>
          (case dec_nat cs of
             None \<Rightarrow> None
           | Some (a, r) \<Rightarrow>
               (case dec_nat r of
                  None \<Rightarrow> None
                | Some (b, r') \<Rightarrow>
                    Some (Fract (if c = CHR ''-'' then - int a else int a) (int b), r'))))"

fun enc :: "json \<Rightarrow> string" where
  "enc JNull = ''n''"
| "enc (JBool b) = (if b then ''t'' else ''f'')"
| "enc (JNum q) = ''#'' @ enc_rat q"
| "enc (JStr s) = ''s'' @ enc_str s"
| "enc (JArr xs) = ''a'' @ enc_nat (length xs) @ concat (map enc xs)"
| "enc (JObj kvs) =
     ''o'' @ enc_nat (length kvs) @ concat (map (\<lambda>kv. enc_str (fst kv) @ enc (snd kv)) kvs)"

primrec dec_seq :: "(string \<Rightarrow> ('a \<times> string) option) \<Rightarrow> nat \<Rightarrow> string \<Rightarrow> ('a list \<times> string) option" where
  "dec_seq p 0 s = Some ([], s)"
| "dec_seq p (Suc n) s =
     (case p s of
        None \<Rightarrow> None
      | Some (v, r) \<Rightarrow>
          (case dec_seq p n r of None \<Rightarrow> None | Some (vs, r') \<Rightarrow> Some (v # vs, r')))"

definition dec_field :: "(string \<Rightarrow> (json \<times> string) option) \<Rightarrow> string \<Rightarrow> ((string \<times> json) \<times> string) option" where
  "dec_field p s =
     (case dec_str s of
        None \<Rightarrow> None
      | Some (k, r) \<Rightarrow> (case p r of None \<Rightarrow> None | Some (v, r') \<Rightarrow> Some ((k, v), r')))"

primrec dec :: "nat \<Rightarrow> string \<Rightarrow> (json \<times> string) option" where
  "dec 0 = (\<lambda>s. None)"
| "dec (Suc fuel) = (\<lambda>s.
     case s of
       [] \<Rightarrow> None
     | c # cs \<Rightarrow>
         if c = CHR ''n'' then Some (JNull, cs)
         else if c = CHR ''t'' then Some (JBool True, cs)
         else if c = CHR ''f'' then Some (JBool False, cs)
         else if c = CHR ''#'' then
           (case dec_rat cs of None \<Rightarrow> None | Some (q, r) \<Rightarrow> Some (JNum q, r))
         else if c = CHR ''s'' then
           (case dec_str cs of None \<Rightarrow> None | Some (t, r) \<Rightarrow> Some (JStr t, r))
         else if c = CHR ''a'' then
           (case dec_nat cs of
              None \<Rightarrow> None
            | Some (n, r) \<Rightarrow>
                (case dec_seq (dec fuel) n r of
                   None \<Rightarrow> None
                 | Some (xs, r') \<Rightarrow> Some (JArr xs, r')))
         else if c = CHR ''o'' then
           (case dec_nat cs of
              None \<Rightarrow> None
            | Some (n, r) \<Rightarrow>
                (case dec_seq (dec_field (dec fuel)) n r of
                   None \<Rightarrow> None
                 | Some (kvs, r') \<Rightarrow> Some (JObj kvs, r')))
         else None)"

definition toy_stringify :: "json \<Rightarrow> string" where
  "toy_stringify v = enc v"

definition toy_parse :: "string \<Rightarrow> json option" where
  "toy_parse s = (case dec (length s) s of Some (v, []) \<Rightarrow> Some v | _ \<Rightarrow> None)"

definition toy_runtime :: runtime where
  "toy_runtime = \<lparr>JSON_parse = toy_parse, JSON_stringify = toy_stringify\<rparr>"

section \<open>Example data\<close>

text \<open>The candidate of the end-to-end scenario.\<close>

definition example_property :: obj where
  "example_property =
     [(''title'', JStr ''A''), (''address'', JStr ''X''), (''bedrooms'', JNum 2),
      (''bathrooms'', JNum 1), (''suites'', JNum 0), (''built_area'', JNum 50),
      (''total_area'', JNum 60), (''price'', JNum 100000), (''condition'', JStr ''new''),
      (''description'', JStr ''d''), (''cover_image_url'', JStr ''u''),
      (''photos_google_drive_link'', JStr ''l'')]"

text \<open>A stored record with the given id.\<close>

definition example_record :: "string \<Rightarrow> json" where
  "example_record ident = JObj (example_property @ [(''id'', JStr ident)])"

section \<open>Objects and the validator\<close>

lemma map_of_assign: "map_of (assign k v kvs) = (map_of kvs)(k \<mapsto> v)"
  by (induction kvs) (auto simp: fun_eq_iff)

lemma keys_assign: "fst ` set (assign k v kvs) = insert k (fst ` set kvs)"
  by (simp add: dom_map_of_conv_image_fst [symmetric] map_of_assign)

lemma distinct_assign: "distinct (map fst kvs) \<Longrightarrow> distinct (map fst (assign k v kvs))"
  by (induction kvs) (auto simp: keys_assign)

lemma first_absent_find: "first_absent property fs = find (absent property) fs"
  by (induction fs) auto

lemma first_absent_Some: "first_absent property fs = Some g \<Longrightarrow> absent property g \<and> g \<in> set fs"
  by (induction fs) (auto split: if_splits)

lemma first_absent_None: "first_absent property fs = None \<longleftrightarrow> (\<forall>f\<in>set fs. \<not> absent property f)"
  by (induction fs) auto

lemma first_absent_cong:
  "(\<And>f. f \<in> set fs \<Longrightarrow> absent p f = absent q f) \<Longrightarrow> first_absent p fs = first_absent q fs"
  by (induction fs) auto

lemma required_msg_inj: "required_msg f = required_msg g \<Longrightarrow> f = g"
  by (simp add: required_msg_def)

lemma required_msg_not_numbers: "required_msg f \<noteq> numbers_msg"
  by (simp add: required_msg_def numbers_msg_def)

section \<open>The runtime to compute with parses what it wrote\<close>

lemma dec_nat_enc_nat: "dec_nat (enc_nat n @ r) = Some (n, r)"
  by (induction n) (simp_all add: enc_nat_def)

lemma dec_str_enc_str: "dec_str (enc_str s @ r) = Some (s, r)"
  by (simp add: dec_str_def enc_str_def dec_nat_enc_nat)

lemma dec_rat_enc_rat: "dec_rat (enc_rat q @ r) = Some (q, r)"
proof -
  obtain a b where ab: "quotient_of q = (a, b)" by (cases "quotient_of q")
  then have q: "q = Fract a b" and b: "b > 0"
    by (simp_all add: quotient_of_div Fract_of_int_quotient quotient_of_denom_pos)
  show ?thesis
    using ab b by (auto simp: dec_rat_def enc_rat_def dec_nat_enc_nat q)
qed

lemma dec_seq_concat:
  assumes "\<And>x r. x \<in> set xs \<Longrightarrow> p (e x @ r) = Some (x, r)"
  shows "dec_seq p (length xs) (concat (map e xs) @ r) = Some (xs, r)"
  using assms by (induction xs arbitrary: r) simp_all

lemma length_concat_ge: "x \<in> set xs \<Longrightarrow> length (e x) \<le> length (concat (map e xs))"
  by (induction xs) auto

lemma dec_Suc_n: "dec (Suc f) (CHR ''n'' # cs) = Some (JNull, cs)" by simp

lemma dec_Suc_t: "dec (Suc f) (CHR ''t'' # cs) = Some (JBool True, cs)" by simp

lemma dec_Suc_f: "dec (Suc f) (CHR ''f'' # cs) = Some (JBool False, cs)" by simp

lemma dec_Suc_num: "dec (Suc f) (CHR ''#'' # cs) =
   (case dec_rat cs of None \<Rightarrow> None | Some (q, r) \<Rightarrow> Some (JNum q, r))" by simp

lemma dec_Suc_s: "dec (Suc f) (CHR ''s'' # cs) =
   (case dec_str cs of None \<Rightarrow> None | Some (t, r) \<Rightarrow> Some (JStr t, r))" by simp

lemma dec_Suc_a: "dec (Suc f) (CHR ''a'' # cs) =
   (case dec_nat cs of None \<Rightarrow> None
            | Some (n, r) \<Rightarrow>
                (case dec_seq (dec f) n r of
                   None \<Rightarrow> None
                 | Some (xs, r') \<Rightarrow> Some (JArr xs, r')))" by simp

lemma dec_Suc_o: "dec (Suc f) (CHR ''o'' # cs) =
   (case dec_nat cs of None \<Rightarrow> None
            | Some (n, r) \<Rightarrow>
                (case dec_seq (dec_field (dec f)) n r of
                   None \<Rightarrow> None
                 | Some (kvs, r') \<Rightarrow> Some (JObj kvs, r')))" by simp

lemmas dec_Suc = dec_Suc_n dec_Suc_t dec_Suc_f dec_Suc_num dec_Suc_s dec_Suc_a dec_Suc_o

lemma enc_fuel: "length (enc v) \<le> fuel \<Longrightarrow> \<exists>f. fuel = Suc f"
  by (cases v; cases fuel) (simp_all split: if_splits)

lemma dec_enc: "length (enc v) \<le> fuel \<Longrightarrow> dec fuel (enc v @ r) = Some (v, r)"
proof (induction v arbitrary: fuel r)
  case JNull
  then obtain f where f: "fuel = Suc f" using enc_fuel by blast
  show ?case unfolding f by (simp only: enc.simps append_Cons append_Nil dec_Suc)
next
  case (JBool b)
  then obtain f where f: "fuel = Suc f" using enc_fuel by blast
  show ?case unfolding f by (cases b) (simp_all only: enc.simps if_True if_False append_Cons append_Nil dec_Suc)
next
  case (JNum q)
  then obtain f where f: "fuel = Suc f" using enc_fuel by blast
  show ?case unfolding f
    by (simp only: enc.simps append_Cons append_Nil dec_Suc dec_rat_enc_rat option.case prod.case)
next
  case (JStr s)
  then obtain f where f: "fuel = Suc f" using enc_fuel by blast
  show ?case unfolding f
    by (simp only: enc.simps append_Cons append_Nil dec_Suc dec_str_enc_str option.case prod.case)
next
  case (JArr xs)
  then obtain f where f: "fuel = Suc f" using enc_fuel by blast
  have "\<And>x r. x \<in> set xs \<Longrightarrow> dec f (enc x @ r) = Some (x, r)"
  proof -
    fix x r assume x: "x \<in> set xs"
    have "length (enc x) \<le> length (concat (map enc xs))" using x by (rule length_concat_ge)
    with JArr.prems f have "length (enc x) \<le> f" by simp
    with JArr.IH x show "dec f (enc x @ r) = Some (x, r)" by blast
  qed
  then have "dec_seq (dec f) (length xs) (concat (map enc xs) @ r) = Some (xs, r)"
    by (rule dec_seq_concat)
  then show ?case unfolding f
    by (simp only: enc.simps append_Cons append_Nil append_assoc dec_Suc dec_nat_enc_nat option.case prod.case)
next
  case (JObj kvs)
  then obtain f where f: "fuel = Suc f" using enc_fuel by blast
  let ?e = "\<lambda>kv. enc_str (fst kv) @ enc (snd kv)"
  have "\<And>x r. x \<in> set kvs \<Longrightarrow> dec_field (dec f) (?e x @ r) = Some (x, r)"
  proof -
    fix x r assume x: "x \<in> set kvs"
    have "length (?e x) \<le> length (concat (map ?e kvs))" using x by (rule length_concat_ge)
    with JObj.prems f have "length (enc (snd x)) \<le> f" by simp
    moreover have "snd x \<in> Basic_BNFs.snds x" by (cases x) simp
    ultimately have "dec f (enc (snd x) @ r) = Some (snd x, r)" using JObj.IH x by blast
    then show "dec_field (dec f) (?e x @ r) = Some (x, r)"
      by (simp add: dec_field_def dec_str_enc_str)
  qed
  then have "dec_seq (dec_field (dec f)) (length kvs) (concat (map ?e kvs) @ r) = Some (kvs, r)"
    by (rule dec_seq_concat)
  then show ?case unfolding f
    by (simp only: enc.simps append_Cons append_Nil append_assoc dec_Suc dec_nat_enc_nat option.case prod.case)
qed

lemma toy_roundtrip: "toy_parse (toy_stringify v) = Some v"
  using dec_enc[of v "length (enc v)" "[]"] by (simp add: toy_parse_def toy_stringify_def)

lemma toy_runtime_simps:
  "JSON_parse toy_runtime (JSON_stringify toy_runtime v) = Some v"
  "JSON_parse toy_runtime (toy_stringify v) = Some v"
  "JSON_stringify toy_runtime v = toy_stringify v"
  by (simp_all add: toy_runtime_def toy_roundtrip)

lemma codec_ok_toy: "codec_ok toy_runtime"
  by (simp add: codec_ok_def toy_runtime_simps)

section \<open>The store\<close>

lemma readData_Inr:
  assumes "readData rt d = (Inr doc, d1)"
  shows "\<exists>c. d1 = File c \<and> JSON_parse rt c = Some doc"
    and "d1 = d \<or> d = Enoent \<and> d1 = File (JSON_stringify rt empty_document)"
  using assms by (cases d; auto split: option.splits)+

lemma readData_again: "readData rt d = (Inr doc, d1) \<Longrightarrow> readData rt d1 = (Inr doc, d1)"
  by (cases d) (auto split: option.splits)

lemma writeData_File: "writeData rt v (File c) = (Inr (), File (JSON_stringify rt v))"
  by simp

lemma readData_File: "JSON_parse rt c = Some doc \<Longrightarrow> readData rt (File c) = (Inr doc, File c)"
  by simp

declare readData.simps [simp del] writeData.simps [simp del]

section \<open>Searching the Collection\<close>

lemma findIndex_none:
  "\<forall>p\<in>set xs. id_is pid p = Inr False \<Longrightarrow> findIndex pid xs = Inr None"
  by (induction xs) auto


lemma id_is_True: "id_is pid p = Inr True \<longleftrightarrow> (\<exists>kvs. p = JObj kvs \<and> map_of kvs ''id'' = Some (JStr pid))"
  by (cases p) (auto simp: id_is_def)

lemma findIndex_hit:
  "findIndex pid xs = Inr (Some i) \<Longrightarrow>
     i < length xs \<and> id_is pid (xs ! i) = Inr True \<and> (\<forall>j<i. id_is pid (xs ! j) = Inr False)"
proof (induction xs arbitrary: i)
  case Nil
  then show ?case by simp
next
  case (Cons p ps)
  show ?case
  proof (cases "id_is pid p")
    case (Inl e)
    with Cons.prems show ?thesis by simp
  next
    case (Inr b)
    show ?thesis
    proof (cases b)
      case True
      with Inr Cons.prems show ?thesis by simp
    next
      case False
      with Inr Cons.prems obtain i' where i': "findIndex pid ps = Inr (Some i')" "i = Suc i'"
        by (auto split: sum.splits option.splits)
      from Cons.IH[OF i'(1)] i'(2) Inr False show ?thesis
        by (auto simp: less_Suc_eq_0_disj)
    qed
  qed
qed

lemma id_is_Inl: "id_is pid p = Inl e \<longleftrightarrow> p = JNull \<and> e = TypeError"
  by (cases p) (auto simp: id_is_def)

lemma id_is_Inr: "p \<noteq> JNull \<Longrightarrow> \<exists>b. id_is pid p = Inr b"
  by (cases "id_is pid p") (simp_all add: id_is_Inl)

lemma filter_other_filter:
  "JNull \<notin> set xs
   \<Longrightarrow> filter_other pid xs = Inr (filter (\<lambda>p. id_is pid p = Inr False) xs)"
proof (induction xs)
  case Nil
  then show ?case by simp
next
  case (Cons p ps)
  then have ih: "filter_other pid ps = Inr (filter (\<lambda>p. id_is pid p = Inr False) ps)" by simp
  from Cons.prems obtain b where b: "id_is pid p = Inr b"
    using id_is_Inr [of p pid] by auto
  show ?case by (cases b) (simp_all add: ih b)
qed

lemma toy_read:
  "readData toy_runtime (stored toy_runtime xs)
     = (Inr (JObj [(''properties'', JArr xs)]), stored toy_runtime xs)"
  by (simp add: stored_def readData_File toy_runtime_simps)

lemma absent_None: "map_of property f = None \<Longrightarrow> absent property f"
  by (simp add: absent_def)

lemma example_valid: "validateProperty example_property = None"
  by (simp add: validateProperty_def example_property_def requiredFields_def absent_def)

lemma id_is_example: "id_is pid (example_record ident) = Inr (ident = pid)"
  by (auto simp: id_is_def example_record_def example_property_def)

lemma assign_append_new: "map_of kvs k = None \<Longrightarrow> assign k v kvs = kvs @ [(k, v)]"
  by (induction kvs) (auto split: if_splits)

lemma assign_last: "map_of kvs k = None \<Longrightarrow> assign k v (kvs @ [(k, w)]) = kvs @ [(k, v)]"
  by (induction kvs) (auto split: if_splits)

lemma readData_write:
  "readData rt d = (Inr doc, d1) \<Longrightarrow> writeData rt v d1 = (Inr (), File (JSON_stringify rt v))"
  using readData_Inr(1) by (fastforce simp: writeData_File)

section \<open>One step of each route on a loaded Collection\<close>

lemma get_step:
  assumes "readData rt d = (Inr (JObj kvs), d1)" and "map_of kvs ''properties'' = Some (JArr xs)"
  shows "get_imoveis rt d = (Response 200 (JArr xs), d1)"
  using assms by (simp add: get_imoveis_def)

lemma post_step:
  assumes "validateProperty body = None"
    and "readData rt d = (Inr (JObj kvs), d1)" and "map_of kvs ''properties'' = Some (JArr xs)"
  shows "post_imoveis rt now body d =
           (Response 201 (JObj (assign ''id'' (JStr (toString now)) body)),
            File (JSON_stringify rt (JObj (assign ''properties''
              (JArr (xs @ [JObj (assign ''id'' (JStr (toString now)) body)])) kvs))))"
  using assms by (simp add: post_imoveis_def Let_def readData_write [OF assms(2)])

lemma delete_step:
  assumes "readData rt d = (Inr (JObj kvs), d1)" and "map_of kvs ''properties'' = Some (JArr xs)"
    and "JNull \<notin> set xs"
  shows "delete_imoveis rt pid d =
           (if length (filter (\<lambda>p. id_is pid p = Inr False) xs) = length xs
            then (Response 404 (message delete_not_found_msg), d1)
            else (Response 200 (message deleted_msg),
                  File (JSON_stringify rt (JObj (assign ''properties''
                    (JArr (filter (\<lambda>p. id_is pid p = Inr False) xs)) kvs)))))"
  using assms
  by (simp add: delete_imoveis_def filter_other_filter readData_write [OF assms(1)])


lemma filter_all_iff: "length (filter P xs) = length xs \<longleftrightarrow> (\<forall>x\<in>set xs. P x)"
  by (metis filter_id_conv length_filter_less less_irrefl_nat)

lemma id_is_cases: "p \<noteq> JNull \<Longrightarrow> id_is pid p = Inr True \<or> id_is pid p = Inr False"
  using id_is_Inr [of p pid] by auto



section \<open>Well-formed objects\<close>

lemma wf_obj_iff: "wf_obj kvs \<longleftrightarrow> distinct (map fst kvs) \<and> (\<forall>kv\<in>set kvs. wf_json (snd kv))"
  by (simp add: wf_obj_def list_all_iff)

lemma values_assign: "(a, b) \<in> set (assign k v kvs) \<Longrightarrow> b = v \<or> (a, b) \<in> set kvs"
  by (induction kvs) (auto split: if_splits)

lemma wf_assign: "wf_obj kvs \<Longrightarrow> wf_json v \<Longrightarrow> wf_obj (assign k v kvs)"
  by (auto simp: wf_obj_iff distinct_assign dest: values_assign)

lemma wf_spread_into:
  "wf_obj acc \<Longrightarrow> \<forall>kv\<in>set kvs. wf_json (snd kv) \<Longrightarrow> wf_obj (spread_into acc kvs)"
proof (induction kvs arbitrary: acc)
  case Nil
  then show ?case by (simp add: spread_into_def)
next
  case (Cons kv kvs)
  then have "wf_obj (assign (fst kv) (snd kv) acc)" by (simp add: wf_assign)
  then have "wf_obj (spread_into (assign (fst kv) (snd kv) acc) kvs)"
    using Cons.prems by (intro Cons.IH) simp_all
  then show ?case by (simp add: spread_into_def)
qed

lemma wf_own_props: "wf_json p \<Longrightarrow> \<forall>kv\<in>set (own_props p). wf_json (snd kv)"
  by (cases p) (auto simp: list_all_iff)

lemma wf_merge_property: "wf_json old \<Longrightarrow> wf_obj body \<Longrightarrow> wf_obj (merge_property old body pid)"
proof -
  assume o: "wf_json old" and b: "wf_obj body"
  have "wf_obj []" by (simp add: wf_obj_def)
  then have "wf_obj (spread_into [] (own_props old))"
    using wf_own_props [OF o] by (rule wf_spread_into)
  moreover have "\<forall>kv\<in>set body. wf_json (snd kv)" using b by (simp add: wf_obj_iff)
  ultimately have "wf_obj (spread_into (spread_into [] (own_props old)) body)"
    by (rule wf_spread_into)
  then show ?thesis by (simp add: merge_property_def wf_assign)
qed

lemma wf_document: "wf_json (JObj [(''properties'', JArr xs)]) = wf_json (JArr xs)"
  by simp

section \<open>The routes on a data file that holds a Collection\<close>

lemma read_holds:
  assumes "codec_ok rt" and "wf_json (JArr xs)" and "holds rt d xs"
  shows "readData rt d = (Inr (JObj [(''properties'', JArr xs)]), stored rt xs)"
proof -
  have p: "JSON_parse rt (JSON_stringify rt (JObj [(''properties'', JArr xs)]))
             = Some (JObj [(''properties'', JArr xs)])"
    using assms(1,2) unfolding codec_ok_def wf_document [symmetric] by blast
  from assms(3) show ?thesis
    unfolding holds_def
  proof
    assume "d = stored rt xs"
    then show ?thesis using p by (simp add: stored_def readData_File)
  next
    assume "d = Enoent \<and> xs = []"
    then show ?thesis using p by (simp add: stored_def readData.simps empty_document_def)
  qed
qed

lemma get_holds:
  assumes "codec_ok rt" and "wf_json (JArr xs)" and "holds rt d xs"
  shows "get_imoveis rt d = (Response 200 (JArr xs), stored rt xs)"
  using get_step [OF read_holds [OF assms]] by simp

lemma collection_holds:
  assumes "codec_ok rt" and "wf_json (JArr xs)" and "holds rt d xs"
  shows "collection rt d = xs"
  by (simp add: collection_def get_holds [OF assms])

lemma post_holds:
  assumes "codec_ok rt" and "wf_json (JArr xs)" and "holds rt d xs" and "validateProperty body = None"
  shows "post_imoveis rt now body d =
           (Response 201 (JObj (assign ''id'' (JStr (toString now)) body)),
            stored rt (xs @ [JObj (assign ''id'' (JStr (toString now)) body)]))"
  using post_step [OF assms(4) read_holds [OF assms(1-3)], of xs now] by (simp add: stored_def)

lemma invalid_post: "validateProperty body = Some m \<Longrightarrow> post_imoveis rt now body d = (Response 400 (message m), d)"
  by (simp add: post_imoveis_def)

lemma invalid_put: "validateProperty body = Some m \<Longrightarrow> put_imoveis rt pid body d = (Response 400 (message m), d)"
  by (simp add: put_imoveis_def)

lemma delete_holds:
  assumes "codec_ok rt" and "wf_json (JArr xs)" and "holds rt d xs" and "JNull \<notin> set xs"
  shows "delete_imoveis rt pid d =
           (if \<forall>p\<in>set xs. id_is pid p = Inr False
            then (Response 404 (message delete_not_found_msg), stored rt xs)
            else (Response 200 (message deleted_msg),
                  stored rt (filter (\<lambda>p. id_is pid p = Inr False) xs)))"
  using delete_step [OF read_holds [OF assms(1-3)] _ assms(4), of pid]
  by (simp add: stored_def filter_all_iff)

lemma findIndex_total:
  "JNull \<notin> set xs \<Longrightarrow>
     findIndex pid xs = Inr None \<and> (\<forall>p\<in>set xs. id_is pid p = Inr False)
     \<or> (\<exists>i. findIndex pid xs = Inr (Some i))"
proof (induction xs)
  case Nil
  then show ?case by simp
next
  case (Cons p ps)
  then have "p \<noteq> JNull" by auto
  from id_is_cases [OF this, of pid] Cons show ?case by auto
qed

lemma put_holds:
  assumes "codec_ok rt" and "wf_json (JArr xs)" and "holds rt d xs" and "JNull \<notin> set xs"
    and "validateProperty body = None"
  shows "(\<forall>p\<in>set xs. id_is pid p = Inr False)
           \<and> put_imoveis rt pid body d = (Response 404 (message not_found_msg), stored rt xs)
         \<or> (\<exists>i<length xs. id_is pid (xs ! i) = Inr True
              \<and> put_imoveis rt pid body d =
                  (Response 200 (JObj (merge_property (xs ! i) body pid)),
                   stored rt (xs[i := JObj (merge_property (xs ! i) body pid)])))"
proof -
  note r = read_holds [OF assms(1-3)]
  from findIndex_total [OF assms(4), of pid] show ?thesis
  proof
    assume n: "findIndex pid xs = Inr None \<and> (\<forall>p\<in>set xs. id_is pid p = Inr False)"
    then have "put_imoveis rt pid body d = (Response 404 (message not_found_msg), stored rt xs)"
      using assms(5) r by (simp add: put_imoveis_def)
    with n show ?thesis by blast
  next
    assume "\<exists>i. findIndex pid xs = Inr (Some i)"
    then obtain i where i: "findIndex pid xs = Inr (Some i)" by blast
    from findIndex_hit [OF i] have l: "i < length xs" and t: "id_is pid (xs ! i) = Inr True" by auto
    have "put_imoveis rt pid body d =
            (Response 200 (JObj (merge_property (xs ! i) body pid)),
             stored rt (xs[i := JObj (merge_property (xs ! i) body pid)]))"
      using assms(5) r i by (simp add: put_imoveis_def Let_def stored_def writeData_File)
    with l t show ?thesis by blast
  qed
qed

section \<open>Decimal texts\<close>

lemma digit_val_digit: "d < 10 \<Longrightarrow> digit_val (digit d) = d"
proof -
  assume "d < 10"
  then have "d \<in> {0, 1, 2, 3, 4, 5, 6, 7, 8, 9}" by auto
  then show ?thesis by (auto simp: digit_val_def digit_def)
qed

lemma fromString_toString: "fromString (toString n) = n"
proof (induction n rule: toString.induct)
  case (1 n)
  show ?case
  proof (cases "n < 10")
    case True
    then show ?thesis by (simp add: toString.simps [of n] fromString_def digit_val_digit)
  next
    case False
    with 1 have "fromString (toString (n div 10)) = n div 10" by simp
    with False show ?thesis
      by (simp add: toString.simps [of n] fromString_def digit_val_digit)
  qed
qed

lemma toString_inj: "toString m = toString n \<Longrightarrow> m = n"
  by (metis fromString_toString)

section \<open>The Collections that the routes build\<close>

lemma stamped_iff:
  "stamped ts p \<longleftrightarrow>
     (\<exists>kvs t. p = JObj kvs \<and> map_of kvs ''id'' = Some (JStr (toString t)) \<and> t \<in> set ts)"
proof (cases p)
  case (JObj kvs)
  show ?thesis
  proof (cases "map_of kvs ''id''")
    case None
    then show ?thesis using JObj by (simp add: stamped_def)
  next
    case (Some v)
    then show ?thesis using JObj by (cases v) (auto simp: stamped_def)
  qed
qed (simp_all add: stamped_def)

lemma stampedD:
  "stamped ts p \<Longrightarrow> \<exists>kvs t. p = JObj kvs \<and> map_of kvs ''id'' = Some (JStr (toString t)) \<and> t \<in> set ts"
  by (simp add: stamped_iff)

lemma stampedI:
  "map_of kvs ''id'' = Some (JStr (toString t)) \<Longrightarrow> t \<in> set ts \<Longrightarrow> stamped ts (JObj kvs)"
  by (auto simp: stamped_iff)

lemma stamped_mono: "stamped ts p \<Longrightarrow> set ts \<subseteq> set ts' \<Longrightarrow> stamped ts' p"
  by (auto simp: stamped_iff)

lemma stamped_not_null: "list_all (stamped ts) xs \<Longrightarrow> JNull \<notin> set xs"
  by (auto simp: list_all_iff stamped_iff)

lemma stamped_fresh:
  assumes "list_all (stamped ts) xs" and "now \<notin> set ts"
  shows "Inr (Some (JStr (toString now))) \<notin> set (ids xs)"
proof
  assume "Inr (Some (JStr (toString now))) \<in> set (ids xs)"
  then obtain p where p: "p \<in> set xs" "member p ''id'' = Inr (Some (JStr (toString now)))"
    by (auto simp: ids_def)
  from assms(1) p(1) have "stamped ts p" by (simp add: list_all_iff)
  from stampedD [OF this] p(2) obtain t where "toString t = toString now" "t \<in> set ts" by auto
  with assms(2) toString_inj show False by blast
qed

lemma built_init: "built rt [] Enoent"
  by (auto simp: built_def holds_def ids_def intro!: exI [of _ "[]"])

lemma built_stored:
  "wf_json (JArr xs) \<Longrightarrow> list_all (stamped ts) xs \<Longrightarrow> (distinct ts \<Longrightarrow> distinct (ids xs))
   \<Longrightarrow> built rt ts (stored rt xs)"
  by (auto simp: built_def holds_def)

lemma handle_built:
  assumes c: "codec_ok rt" and w: "wf_request r" and b: "built rt ts d"
  shows "built rt (stamps [r] @ ts) (snd (handle rt r d))"
proof -
  from b obtain xs where h: "holds rt d xs" and wf: "wf_json (JArr xs)"
    and st: "list_all (stamped ts) xs" and di: "distinct ts \<Longrightarrow> distinct (ids xs)"
    by (auto simp: built_def)
  note nn = stamped_not_null [OF st]
  show ?thesis
  proof (cases r)
    case GET
    then show ?thesis using get_holds [OF c wf h] built_stored [OF wf st di] by simp
  next
    case (POST now body)
    show ?thesis
    proof (cases "validateProperty body")
      case (Some m)
      from st have "list_all (stamped (now # ts)) xs"
        by (auto simp: list_all_iff intro: stamped_mono)
      with h wf di have "built rt (now # ts) d" by (auto simp: built_def)
      then show ?thesis using POST Some by (simp add: invalid_post)
    next
      case None
      let ?rec = "assign ''id'' (JStr (toString now)) body"
      from w POST have wb: "wf_obj body" by simp
      then have wr: "wf_json (JObj ?rec)" using wf_assign [of body "JStr (toString now)" "''id''"]
        by (simp add: wf_obj_def)
      have sr: "stamped (now # ts) (JObj ?rec)"
        by (rule stampedI [of _ now]) (simp_all add: map_of_assign)
      have 1: "wf_json (JArr (xs @ [JObj ?rec]))" using wf wr by simp
      have 2: "list_all (stamped (now # ts)) (xs @ [JObj ?rec])"
        using st sr by (auto simp: list_all_iff intro: stamped_mono)
      have 3: "distinct (ids (xs @ [JObj ?rec]))" if "distinct (now # ts)"
      proof -
        from that have "now \<notin> set ts" "distinct ts" by auto
        then have "Inr (Some (JStr (toString now))) \<notin> set (ids xs)" "distinct (ids xs)"
          using stamped_fresh [OF st] di by auto
        then show ?thesis by (simp add: ids_def map_of_assign)
      qed
      from built_stored [OF 1 2 3] show ?thesis
        using POST post_holds [OF c wf h None, of now] by simp
    qed
  next
    case (PUT pid body)
    show ?thesis
    proof (cases "validateProperty body")
      case (Some m)
      then show ?thesis using PUT b by (simp add: invalid_put)
    next
      case None
      from w PUT have wb: "wf_obj body" by simp
      from put_holds [OF c wf h nn None, of pid] show ?thesis
      proof (elim disjE conjE exE)
        assume "put_imoveis rt pid body d = (Response 404 (message not_found_msg), stored rt xs)"
        then show ?thesis using PUT built_stored [OF wf st di] by simp
      next
        fix i
        let ?m = "JObj (merge_property (xs ! i) body pid)"
        assume i: "i < length xs" and t: "id_is pid (xs ! i) = Inr True"
          and p: "put_imoveis rt pid body d = (Response 200 ?m, stored rt (xs[i := ?m]))"
        from i have mem: "xs ! i \<in> set xs" by simp
        with wf have wo: "wf_json (xs ! i)" by (simp add: list_all_iff)
        have wm: "wf_json ?m" using wf_merge_property [OF wo wb, of pid] by (simp add: wf_obj_def)
        from mem st have "stamped ts (xs ! i)" by (simp add: list_all_iff)
        from stampedD [OF this] t obtain tm where tm: "pid = toString tm" "tm \<in> set ts"
          by (auto simp: id_is_def)
        have sm: "stamped ts ?m"
          by (rule stampedI [of _ tm]) (simp_all add: merge_property_def map_of_assign tm)
        have same: "member ?m ''id'' = member (xs ! i) ''id''"
          using t by (auto simp: id_is_True merge_property_def map_of_assign)
        have 1: "wf_json (JArr (xs[i := ?m]))"
          using wf wm set_update_subset_insert [of xs i ?m] by (auto simp: list_all_iff)
        have 2: "list_all (stamped ts) (xs[i := ?m])"
          using st sm set_update_subset_insert [of xs i ?m] by (auto simp: list_all_iff)
        have "ids (xs[i := ?m]) = ids xs"
          using same i by (simp add: ids_def map_update list_update_same_conv)
        then have 3: "distinct (ids (xs[i := ?m]))" if "distinct ts" using di that by simp
        from built_stored [OF 1 2 3] show ?thesis using PUT p by simp
      qed
    qed
  next
    case (DELETE pid)
    let ?ys = "filter (\<lambda>p. id_is pid p = Inr False) xs"
    have 1: "wf_json (JArr ?ys)" using wf by (simp add: list_all_iff)
    have 2: "list_all (stamped ts) ?ys" using st by (simp add: list_all_iff)
    have 3: "distinct (ids ?ys)" if "distinct ts"
      using di [OF that] by (simp add: ids_def distinct_map_filter)
    from built_stored [OF 1 2 3] built_stored [OF wf st di] show ?thesis
      using DELETE delete_holds [OF c wf h nn, of pid] by simp
  qed
qed

lemma stamps_Cons: "stamps (r # rs) = stamps [r] @ stamps rs"
  by (cases r) simp_all

lemma stamps_single: "rev (stamps [r]) = stamps [r]"
  by (cases r) simp_all

lemma run_built:
  "codec_ok rt \<Longrightarrow> \<forall>r\<in>set reqs. wf_request r \<Longrightarrow> built rt ts d
   \<Longrightarrow> built rt (rev (stamps reqs) @ ts) (run rt reqs d)"
proof (induction reqs arbitrary: ts d)
  case Nil
  then show ?case by simp
next
  case (Cons r rs)
  from Cons.prems have "built rt (stamps [r] @ ts) (snd (handle rt r d))"
    by (intro handle_built) simp_all
  with Cons.prems have "built rt (rev (stamps rs) @ stamps [r] @ ts) (run rt rs (snd (handle rt r d)))"
    by (intro Cons.IH) simp_all
  then show ?case by (simp add: stamps_Cons [of r rs] stamps_single)
qed

lemma reachable_built:
  "codec_ok rt \<Longrightarrow> \<forall>r\<in>set reqs. wf_request r \<Longrightarrow> built rt (rev (stamps reqs)) (run rt reqs Enoent)"
  using run_built [of rt reqs "[]" Enoent] by (simp add: built_init)

lemma built_collection:
  assumes "codec_ok rt" and "built rt ts d"
  shows "holds rt d (collection rt d) \<and> wf_json (JArr (collection rt d))
         \<and> list_all (stamped ts) (collection rt d)
         \<and> (distinct ts \<longrightarrow> distinct (ids (collection rt d)))"
proof -
  from assms(2) obtain xs where x: "holds rt d xs" "wf_json (JArr xs)"
    "list_all (stamped ts) xs" "distinct ts \<longrightarrow> distinct (ids xs)"
    by (auto simp: built_def)
  then have "collection rt d = xs" using collection_holds [OF assms(1)] by blast
  with x show ?thesis by simp
qed

section \<open>Computing with the example data\<close>

lemma holds_stored: "holds rt (stored rt xs) xs"
  by (simp add: holds_def)

lemmas stored_fold = stored_def [symmetric]

lemma example_not_null: "example_record ident \<noteq> JNull" "JNull \<noteq> example_record ident"
  by (simp_all add: example_record_def)

lemma holds_Enoent: "holds rt Enoent []"
  by (simp add: holds_def)

lemma wf_example: "wf_json (example_record ident)"
  by (simp add: example_record_def example_property_def)

lemma wf_example_property: "wf_obj example_property"
  by (simp add: wf_obj_def example_property_def)

lemma example_post_record:
  "JObj (assign ''id'' (JStr ident) example_property) = example_record ident"
  by (simp add: example_record_def example_property_def)

lemma toString_5: "toString 5 = ''5''" and toString_6: "toString 6 = ''6''"
  by (simp_all add: toString.simps digit_def)

lemma member_example: "member (example_record ident) ''id'' = Inr (Some (JStr ident))"
  by (simp add: example_record_def example_property_def)

lemma run_two_posts:
  "run toy_runtime [POST a example_property, POST b example_property] Enoent
     = stored toy_runtime [example_record (toString a), example_record (toString b)]"
proof -
  have 1: "post_imoveis toy_runtime a example_property Enoent
             = (Response 201 (example_record (toString a)),
                stored toy_runtime [example_record (toString a)])"
    using post_holds [OF codec_ok_toy _ holds_Enoent example_valid, of a]
    by (simp add: example_post_record)
  have 2: "post_imoveis toy_runtime b example_property (stored toy_runtime [example_record (toString a)])
             = (Response 201 (example_record (toString b)),
                stored toy_runtime [example_record (toString a), example_record (toString b)])"
    using post_holds [OF codec_ok_toy _ holds_stored example_valid, of "[example_record (toString a)]" b]
    by (simp add: example_post_record wf_example)
  show ?thesis by (simp add: 1 2)
qed

lemma collection_toy:
  "list_all wf_json xs \<Longrightarrow> collection toy_runtime (stored toy_runtime xs) = xs"
  using collection_holds [OF codec_ok_toy _ holds_stored, of xs] by simp

section \<open>The claims\<close>






text \<open>
  Claim C3, as stated, on a Collection that two creations at the same millisecond
  produce: both records carry the id 5, and deleting the id 5 removes the two of them.
\<close>

theorem delete_duplicates_counterexample:
  "collection toy_runtime
     (run toy_runtime [POST 5 example_property, POST 5 example_property] Enoent)
     = [example_record ''5'', example_record ''5'']
   \<and> delete_imoveis toy_runtime ''5''
       (run toy_runtime [POST 5 example_property, POST 5 example_property] Enoent)
     = (Response 200 (message deleted_msg), stored toy_runtime [])
   \<and> collection toy_runtime (stored toy_runtime []) = []
   \<and> length [example_record ''5'', example_record ''5''] = length ([] :: json list) + 2"
proof -
  have d: "delete_imoveis toy_runtime ''5'' (stored toy_runtime [example_record ''5'', example_record ''5''])
      = (Response 200 (message deleted_msg), stored toy_runtime [])"
    using delete_holds [OF codec_ok_toy _ holds_stored, of "[example_record ''5'', example_record ''5'']" "''5''"]
    by (simp add: wf_example id_is_example example_not_null)
  show ?thesis
    unfolding run_two_posts toString_5 by (simp add: collection_toy wf_example d)
qed

text \<open>
  Claim C3, amended: the delete route keeps, in their order, the records whose id
  differs from the id of the path. When no record has that id it answers 404 and the
  stored document stays as it is. When some record has it, it answers 200, stores the
  others, and the length shrinks by the number of records with that id; when exactly
  one record has it, exactly that record goes and the length shrinks by one.
\<close>

theorem delete_removes_matches:
  assumes "readData rt d = (Inr (JObj kvs), d1)"
    and "map_of kvs ''properties'' = Some (JArr xs)"
    and "JNull \<notin> set xs"
  shows "((\<forall>p\<in>set xs. id_is pid p = Inr False) \<longrightarrow>
            delete_imoveis rt pid d = (Response 404 (message delete_not_found_msg), d1)
            \<and> readData rt d1 = (Inr (JObj kvs), d1))
       \<and> ((\<exists>p\<in>set xs. id_is pid p = Inr True) \<longrightarrow>
            delete_imoveis rt pid d =
              (Response 200 (message deleted_msg),
               File (JSON_stringify rt (JObj (assign ''properties''
                 (JArr (filter (\<lambda>p. id_is pid p = Inr False) xs)) kvs))))
            \<and> length (filter (\<lambda>p. id_is pid p = Inr False) xs)
                + length (filter (\<lambda>p. id_is pid p = Inr True) xs) = length xs)
       \<and> (\<forall>pre p post.
            xs = pre @ p # post \<and> id_is pid p = Inr True
              \<and> (\<forall>q\<in>set (pre @ post). id_is pid q = Inr False) \<longrightarrow>
            filter (\<lambda>p. id_is pid p = Inr False) xs = pre @ post
            \<and> length (pre @ post) + 1 = length xs)"
proof -
  let ?keep = "\<lambda>p. id_is pid p = Inr False"
  have a: "delete_imoveis rt pid d = (Response 404 (message delete_not_found_msg), d1)
           \<and> readData rt d1 = (Inr (JObj kvs), d1)"
    if "\<forall>p\<in>set xs. id_is pid p = Inr False"
    using that delete_step [OF assms, of pid] readData_again [OF assms(1)]
    by (simp add: filter_all_iff)
  have len: "length (filter ?keep xs) + length (filter (\<lambda>p. id_is pid p = Inr True) xs) = length xs"
  proof -
    have "id_is pid p = Inr True \<longleftrightarrow> \<not> ?keep p" if "p \<in> set xs" for p
      using that assms(3) id_is_cases [of p pid] by auto
    then have "filter (\<lambda>p. id_is pid p = Inr True) xs = filter (\<lambda>p. \<not> ?keep p) xs"
      by (intro filter_cong) auto
    then show ?thesis using sum_length_filter_compl [of ?keep xs] by simp
  qed
  have b: "delete_imoveis rt pid d =
              (Response 200 (message deleted_msg),
               File (JSON_stringify rt (JObj (assign ''properties'' (JArr (filter ?keep xs)) kvs))))"
    if "\<exists>p\<in>set xs. id_is pid p = Inr True"
  proof -
    from that obtain p where "p \<in> set xs" "id_is pid p = Inr True" by blast
    then have "\<not> ?keep p" by simp
    with \<open>p \<in> set xs\<close> have "\<not> (\<forall>x\<in>set xs. ?keep x)" by blast
    then show ?thesis using delete_step [OF assms, of pid] by (simp add: filter_all_iff)
  qed
  have c: "filter ?keep xs = pre @ post \<and> length (pre @ post) + 1 = length xs"
    if "xs = pre @ p # post" "id_is pid p = Inr True" "\<forall>q\<in>set (pre @ post). id_is pid q = Inr False"
    for pre p post
    using that by (auto simp: filter_id_conv)
  from a b c len show ?thesis by blast
qed

theorem delete_removes_matches_witness:
  "readData toy_runtime (stored toy_runtime [example_record ''5'', example_record ''6''])
     = (Inr (JObj [(''properties'', JArr [example_record ''5'', example_record ''6''])]),
        stored toy_runtime [example_record ''5'', example_record ''6''])
   \<and> JNull \<notin> set [example_record ''5'', example_record ''6'']
   \<and> id_is ''7'' (example_record ''5'') = Inr False \<and> id_is ''7'' (example_record ''6'') = Inr False
   \<and> id_is ''5'' (example_record ''5'') = Inr True \<and> id_is ''5'' (example_record ''6'') = Inr False
   \<and> delete_imoveis toy_runtime ''7'' (stored toy_runtime [example_record ''5'', example_record ''6''])
       = (Response 404 (message delete_not_found_msg),
          stored toy_runtime [example_record ''5'', example_record ''6''])
   \<and> delete_imoveis toy_runtime ''5'' (stored toy_runtime [example_record ''5'', example_record ''6''])
       = (Response 200 (message deleted_msg), stored toy_runtime [example_record ''6''])
   \<and> [example_record ''5'', example_record ''6''] = [] @ example_record ''5'' # [example_record ''6'']
   \<and> filter (\<lambda>p. id_is ''5'' p = Inr False) [example_record ''5'', example_record ''6'']
       = [] @ [example_record ''6'']"
proof -
  let ?xs = "[example_record ''5'', example_record ''6'']"
  have n: "JNull \<notin> set ?xs" by (simp add: example_not_null)
  have m: "map_of [(''properties'', JArr ?xs)] ''properties'' = Some (JArr ?xs)" by simp
  from delete_removes_matches [OF toy_read m n, of "''7''"]
       delete_removes_matches [OF toy_read m n, of "''5''"] n
  show ?thesis
    by (simp add: toy_read id_is_example stored_fold)
qed

text \<open>
  Claim C4, as stated, at the field \<^verbatim>\<open>price\<close>: the type check of
  \<^verbatim>\<open>validateProperty\<close> reads five fields, the ones its message names (rooms,
  bathrooms, suites and areas); a candidate whose price is the text \<^verbatim>\<open>abc\<close> passes.
\<close>

theorem validate_price_counterexample:
  "map_of (assign ''price'' (JStr ''abc'') example_property) ''price'' = Some (JStr ''abc'')
   \<and> \<not> is_number (Some (JStr ''abc''))
   \<and> validateProperty (assign ''price'' (JStr ''abc'') example_property) = None"
  by (simp add: validateProperty_def example_property_def requiredFields_def absent_def)

text \<open>
  Claim C4, amended: a candidate in which one of bedrooms, bathrooms, suites, built_area
  and total_area is present with a value that is not a number is refused by
  \<^verbatim>\<open>validateProperty\<close>, which returns an error message and not \<^verbatim>\<open>null\<close>.
\<close>

theorem validate_rejects_non_number:
  assumes "f \<in> {''bedrooms'', ''bathrooms'', ''suites'', ''built_area'', ''total_area''}"
    and "map_of property f = Some v" and "\<not> is_number (Some v)"
  shows "validateProperty property \<noteq> None"
  using assms by (auto simp: validateProperty_def split: option.splits)

theorem validate_rejects_non_number_witness:
  "''bedrooms'' \<in> {''bedrooms'', ''bathrooms'', ''suites'', ''built_area'', ''total_area''}
   \<and> map_of (assign ''bedrooms'' (JStr ''3'') example_property) ''bedrooms'' = Some (JStr ''3'')
   \<and> \<not> is_number (Some (JStr ''3''))
   \<and> validateProperty (assign ''bedrooms'' (JStr ''3'') example_property) \<noteq> None"
  using validate_rejects_non_number [of "''bedrooms''" "assign ''bedrooms'' (JStr ''3'') example_property" "JStr ''3''"]
  by (simp add: example_property_def)

text \<open>
  Claim C5: a numeric field given as the number 0 is not taken for a missing field. It
  passes the presence test and the type test, the verdict never is the message that
  asks for this field, and the verdict is the one the same candidate gets with 1 in
  that field.
\<close>

theorem validate_zero_present:
  assumes "f \<in> {''bedrooms'', ''bathrooms'', ''suites'', ''built_area'', ''total_area'', ''price''}"
    and "map_of property f = Some (JNum 0)"
  shows "\<not> absent property f \<and> is_number (map_of property f)
         \<and> validateProperty property \<noteq> Some (required_msg f)
         \<and> validateProperty property = validateProperty (assign f (JNum 1) property)"
proof -
  have a: "\<not> absent property f" using assms(2) by (simp add: absent_def)
  have n: "is_number (map_of property f)" using assms(2) by simp
  have "first_absent property requiredFields \<noteq> Some f"
    using a first_absent_Some by blast
  then have m: "validateProperty property \<noteq> Some (required_msg f)"
    by (auto simp: validateProperty_def required_msg_not_numbers [symmetric]
             split: option.splits dest: required_msg_inj)
  have abs: "absent property g = absent (assign f (JNum 1) property) g" for g
    using assms(2) by (simp add: absent_def map_of_assign)
  have num: "is_number (map_of property g) = is_number (map_of (assign f (JNum 1) property) g)" for g
    using assms(2) by (simp add: map_of_assign)
  have "first_absent property requiredFields = first_absent (assign f (JNum 1) property) requiredFields"
    by (rule first_absent_cong) (rule abs)
  then have "validateProperty property = validateProperty (assign f (JNum 1) property)"
    unfolding validateProperty_def using num by presburger
  with a n m show ?thesis by blast
qed

theorem validate_zero_present_witness:
  "''suites'' \<in> {''bedrooms'', ''bathrooms'', ''suites'', ''built_area'', ''total_area'', ''price''}
   \<and> map_of example_property ''suites'' = Some (JNum 0)
   \<and> \<not> absent example_property ''suites''
   \<and> validateProperty example_property \<noteq> Some (required_msg ''suites'')
   \<and> validateProperty example_property = None"
proof -
  have h: "map_of example_property ''suites'' = Some (JNum 0)"
    by (simp add: example_property_def)
  have v: "validateProperty example_property = None"
    by (simp add: validateProperty_def example_property_def requiredFields_def absent_def)
  from validate_zero_present [of "''suites''" example_property] h v show ?thesis by simp
qed

text \<open>
  Claim C6: a candidate that lacks a required field is refused by the create route with
  status 400 and the message of the first field, in the order of the required fields,
  that fails the presence test (the missing field itself when no other field fails);
  the data file is not touched.
\<close>

theorem create_missing_field:
  assumes "f \<in> set requiredFields" and "map_of body f = None"
  shows "\<exists>g. find (absent body) requiredFields = Some g
           \<and> post_imoveis rt now body d = (Response 400 (message (required_msg g)), d)
           \<and> ((\<forall>h\<in>set requiredFields. h \<noteq> f \<longrightarrow> \<not> absent body h) \<longrightarrow> g = f)"
proof -
  have "absent body f" using assms(2) by (rule absent_None)
  with assms(1) have "first_absent body requiredFields \<noteq> None"
    by (auto simp: first_absent_None)
  then obtain g where g: "first_absent body requiredFields = Some g" by blast
  then have "validateProperty body = Some (required_msg g)"
    by (simp add: validateProperty_def)
  then have "post_imoveis rt now body d = (Response 400 (message (required_msg g)), d)"
    by (simp add: post_imoveis_def)
  moreover have "find (absent body) requiredFields = Some g"
    using g by (simp add: first_absent_find)
  moreover have "(\<forall>h\<in>set requiredFields. h \<noteq> f \<longrightarrow> \<not> absent body h) \<longrightarrow> g = f"
    using first_absent_Some [OF g] by blast
  ultimately show ?thesis by blast
qed

theorem create_missing_field_witness:
  "''price'' \<in> set requiredFields
   \<and> map_of (filter (\<lambda>kv. fst kv \<noteq> ''price'') example_property) ''price'' = None
   \<and> post_imoveis toy_runtime 5 (filter (\<lambda>kv. fst kv \<noteq> ''price'') example_property) Enoent
       = (Response 400 (message (required_msg ''price'')), Enoent)"
proof -
  let ?body = "filter (\<lambda>kv. fst kv \<noteq> ''price'') example_property"
  have f: "''price'' \<in> set requiredFields" by (simp add: requiredFields_def)
  have m: "map_of ?body ''price'' = None" by (simp add: example_property_def)
  from create_missing_field [OF f m, of toy_runtime 5 Enoent]
  obtain g where g: "find (absent ?body) requiredFields = Some g"
    and p: "post_imoveis toy_runtime 5 ?body Enoent = (Response 400 (message (required_msg g)), Enoent)"
    by blast
  have "find (absent ?body) requiredFields = Some ''price''"
    by (simp add: example_property_def requiredFields_def absent_def)
  with g have "g = ''price''" by simp
  with f m p show ?thesis by simp
qed

text \<open>
  Claim C7: when the candidate passes validation and no record of the loaded Collection
  has the id of the path, the update route answers 404 and writes nothing: the data
  file is the one the load left (the file as it was, or the empty document the load
  created where there was no file), and loading it again gives the same document.
\<close>

theorem update_not_found:
  assumes "validateProperty body = None"
    and "readData rt d = (Inr (JObj kvs), d1)"
    and "map_of kvs ''properties'' = Some (JArr xs)"
    and "\<forall>p\<in>set xs. id_is pid p = Inr False"
  shows "put_imoveis rt pid body d = (Response 404 (message not_found_msg), d1)
         \<and> (d1 = d \<or> d = Enoent \<and> d1 = File (JSON_stringify rt empty_document))
         \<and> readData rt d1 = (Inr (JObj kvs), d1)"
  using assms readData_Inr(2) [OF assms(2)] readData_again [OF assms(2)]
  by (simp add: put_imoveis_def findIndex_none)

theorem update_not_found_witness:
  "validateProperty example_property = None
   \<and> readData toy_runtime (stored toy_runtime [example_record ''5''])
       = (Inr (JObj [(''properties'', JArr [example_record ''5''])]), stored toy_runtime [example_record ''5''])
   \<and> id_is ''7'' (example_record ''5'') = Inr False
   \<and> put_imoveis toy_runtime ''7'' example_property (stored toy_runtime [example_record ''5''])
       = (Response 404 (message not_found_msg), stored toy_runtime [example_record ''5''])"
  using update_not_found [of example_property toy_runtime "stored toy_runtime [example_record ''5'']"
      "[(''properties'', JArr [example_record ''5''])]" "stored toy_runtime [example_record ''5'']"
      "[example_record ''5'']" "''7''"]
  by (simp add: example_valid toy_read id_is_example)

text \<open>
  Claim C8: on every Collection that requests to the four routes build from the absent
  data file, the ids are pairwise different as long as the creations happened at
  pairwise different timestamps, and the id that a further creation at yet another
  timestamp assigns is the id of no record already there; two creations at the same
  timestamp give two records with the same id.
\<close>

theorem ids_unique_unless_same_timestamp:
  "(codec_ok rt \<and> (\<forall>r\<in>set reqs. wf_request r) \<and> distinct (stamps reqs) \<longrightarrow>
      distinct (ids (collection rt (run rt reqs Enoent)))
      \<and> (\<forall>now body. now \<notin> set (stamps reqs) \<and> validateProperty body = None \<longrightarrow>
            fst (post_imoveis rt now body (run rt reqs Enoent))
              = Response 201 (JObj (assign ''id'' (JStr (toString now)) body))
            \<and> member (JObj (assign ''id'' (JStr (toString now)) body)) ''id''
                \<notin> set (ids (collection rt (run rt reqs Enoent)))))
   \<and> \<not> distinct (ids (collection toy_runtime
          (run toy_runtime [POST 5 example_property, POST 5 example_property] Enoent)))"
proof -
  have a: "distinct (ids (collection rt (run rt reqs Enoent)))
      \<and> (\<forall>now body. now \<notin> set (stamps reqs) \<and> validateProperty body = None \<longrightarrow>
            fst (post_imoveis rt now body (run rt reqs Enoent))
              = Response 201 (JObj (assign ''id'' (JStr (toString now)) body))
            \<and> member (JObj (assign ''id'' (JStr (toString now)) body)) ''id''
                \<notin> set (ids (collection rt (run rt reqs Enoent))))"
    if c: "codec_ok rt" and w: "\<forall>r\<in>set reqs. wf_request r" and d: "distinct (stamps reqs)"
  proof -
    let ?d = "run rt reqs Enoent"
    from built_collection [OF c reachable_built [OF c w]]
    have h: "holds rt ?d (collection rt ?d)" and wf: "wf_json (JArr (collection rt ?d))"
      and st: "list_all (stamped (rev (stamps reqs))) (collection rt ?d)"
      and di: "distinct (ids (collection rt ?d))"
      using d by simp_all
    have "fst (post_imoveis rt now body ?d)
              = Response 201 (JObj (assign ''id'' (JStr (toString now)) body))
            \<and> member (JObj (assign ''id'' (JStr (toString now)) body)) ''id''
                \<notin> set (ids (collection rt ?d))"
      if "now \<notin> set (stamps reqs)" "validateProperty body = None" for now body
      using post_holds [OF c wf h that(2), of now] stamped_fresh [OF st, of now] that(1)
      by (simp add: map_of_assign)
    with di show ?thesis by blast
  qed
  have b: "\<not> distinct (ids (collection toy_runtime
          (run toy_runtime [POST 5 example_property, POST 5 example_property] Enoent)))"
    unfolding run_two_posts by (simp add: collection_toy wf_example ids_def)
  from a b show ?thesis by blast
qed

theorem ids_unique_unless_same_timestamp_witness:
  "codec_ok toy_runtime
   \<and> wf_request (POST 5 example_property) \<and> wf_request (POST 6 example_property)
   \<and> distinct (stamps [POST 5 example_property, POST 6 example_property])
   \<and> validateProperty example_property = None
   \<and> ids (collection toy_runtime
        (run toy_runtime [POST 5 example_property, POST 6 example_property] Enoent))
       = [Inr (Some (JStr ''5'')), Inr (Some (JStr ''6''))]
   \<and> distinct (ids (collection toy_runtime
        (run toy_runtime [POST 5 example_property, POST 6 example_property] Enoent)))
   \<and> member (JObj (assign ''id'' (JStr (toString 7)) example_property)) ''id''
        \<notin> set (ids (collection toy_runtime
             (run toy_runtime [POST 5 example_property, POST 6 example_property] Enoent)))"
proof -
  let ?reqs = "[POST 5 example_property, POST 6 example_property]"
  have w: "\<forall>r\<in>set ?reqs. wf_request r" by (simp add: wf_example_property)
  have d: "distinct (stamps ?reqs)" by simp
  have s: "7 \<notin> set (stamps ?reqs)" by simp
  have i: "ids (collection toy_runtime (run toy_runtime ?reqs Enoent))
             = [Inr (Some (JStr ''5'')), Inr (Some (JStr ''6''))]"
    unfolding run_two_posts toString_5 toString_6
    by (simp add: collection_toy wf_example ids_def member_example)
  from ids_unique_unless_same_timestamp [of toy_runtime ?reqs] codec_ok_toy w d
  have "distinct (ids (collection toy_runtime (run toy_runtime ?reqs Enoent)))"
    and "member (JObj (assign ''id'' (JStr (toString 7)) example_property)) ''id''
        \<notin> set (ids (collection toy_runtime (run toy_runtime ?reqs Enoent)))"
    using s example_valid by blast+
  with i show ?thesis by (simp add: codec_ok_toy wf_example_property example_valid)
qed



text \<open>
  Claim C10: when the loaded document is an object without the key \<^verbatim>\<open>properties\<close>,
  the list route answers the empty sequence; the create route, for a candidate that
  passes validation, stores a Collection that holds the new record alone; the update
  route, which loads the document once the candidate has passed validation, and the
  delete route answer 500, the generic error of their catch branch, not 404.
\<close>

theorem missing_properties_key:
  assumes "readData rt d = (Inr (JObj kvs), d1)"
    and "map_of kvs ''properties'' = None"
  shows "get_imoveis rt d = (Response 200 (JArr []), d1)
     \<and> (validateProperty body = None \<longrightarrow>
          post_imoveis rt now body d =
            (Response 201 (JObj (assign ''id'' (JStr (toString now)) body)),
             File (JSON_stringify rt (JObj (kvs @
               [(''properties'', JArr [JObj (assign ''id'' (JStr (toString now)) body)])])))))
     \<and> (validateProperty body = None \<longrightarrow>
          put_imoveis rt pid body d = (Response 500 (message put_error_msg), d1))
     \<and> delete_imoveis rt pid d = (Response 500 (message delete_error_msg), d1)"
proof -
  have g: "get_imoveis rt d = (Response 200 (JArr []), d1)"
    using assms by (simp add: get_imoveis_def)
  have p: "push_property (JObj kvs) p = Inr (JObj (kvs @ [(''properties'', JArr [p])]))" for p
    using assms(2) by (simp add: assign_append_new assign_last map_add_def)
  have c: "validateProperty body = None \<Longrightarrow>
          post_imoveis rt now body d =
            (Response 201 (JObj (assign ''id'' (JStr (toString now)) body)),
             File (JSON_stringify rt (JObj (kvs @
               [(''properties'', JArr [JObj (assign ''id'' (JStr (toString now)) body)])]))))"
    using assms(1) by (simp add: post_imoveis_def Let_def p readData_write [OF assms(1)] del: push_property.simps)
  have u: "validateProperty body = None \<Longrightarrow>
          put_imoveis rt pid body d = (Response 500 (message put_error_msg), d1)"
    using assms by (simp add: put_imoveis_def)
  have x: "delete_imoveis rt pid d = (Response 500 (message delete_error_msg), d1)"
    using assms by (simp add: delete_imoveis_def)
  from g c u x show ?thesis by blast
qed

theorem missing_properties_key_witness:
  "readData toy_runtime (File (toy_stringify (JObj []))) = (Inr (JObj []), File (toy_stringify (JObj [])))
   \<and> map_of ([] :: obj) ''properties'' = None
   \<and> validateProperty example_property = None
   \<and> get_imoveis toy_runtime (File (toy_stringify (JObj [])))
        = (Response 200 (JArr []), File (toy_stringify (JObj [])))
   \<and> post_imoveis toy_runtime 5 example_property (File (toy_stringify (JObj [])))
        = (Response 201 (example_record ''5''), stored toy_runtime [example_record ''5''])
   \<and> put_imoveis toy_runtime ''5'' example_property (File (toy_stringify (JObj [])))
        = (Response 500 (message put_error_msg), File (toy_stringify (JObj [])))
   \<and> delete_imoveis toy_runtime ''5'' (File (toy_stringify (JObj [])))
        = (Response 500 (message delete_error_msg), File (toy_stringify (JObj [])))"
proof -
  have r: "readData toy_runtime (File (toy_stringify (JObj []))) = (Inr (JObj []), File (toy_stringify (JObj [])))"
    by (simp add: readData_File toy_runtime_simps)
  have e: "JObj (assign ''id'' (JStr (toString 5)) example_property) = example_record ''5''"
    by (simp add: example_record_def example_property_def toString.simps digit_def)
  from missing_properties_key [OF r, of example_property 5 "''5''"] r e
  show ?thesis by (simp add: example_valid toy_runtime_simps stored_def)
qed

end
